theory Spec2Isabelle
  imports Complex_Main "HOL-Library.Sublist"
begin

section \<open>Python values, errors and outcomes\<close>

text \<open>
  The module \<open>lib/python/script/raster.py\<close> is Python 2 code: strings are byte strings
  (\<^typ>\<open>string\<close>), dictionaries are finite maps, and an exception is an outcome of its
  own. Floating-point numbers are kept abstract (the type variable \<open>'f\<close>): the module
  never computes with them, it only hands text to the parsers and formatters.
\<close>

datatype error =
    KeyError string
  | ValueError
  | IndexError
  | TypeError
  | CalledModuleError

text \<open>
  A call returns a value, raises an exception, or ends in the fatal-error channel
  (\<open>Abort\<close>), which terminates the operation.
\<close>

datatype 'a outcome = Return 'a | Raise error | Abort

datatype pyval =
    PNone
  | PBool bool
  | PInt int
  | PStr string
  | PDict "(string \<times> string) list"

text \<open>An invocation of an external tool: its name and the keyword arguments as written.\<close>

type_synonym invocation = "string \<times> (string \<times> pyval) list"

datatype event =
    Run invocation
  | Read invocation
  | Write invocation
  | Feed invocation
  | StdinWrite string
  | StdinClose
  | Warning string
  | Fatal string

datatype popen = Popen invocation

text \<open>A value of the metadata record after coercion.\<close>

datatype 'f val = Text string | Float 'f | NoneV

section \<open>The collaborators\<close>

text \<open>
  Modelled from the spec: the functions of \<open>core.py\<close> and \<open>utils.py\<close> and the Python
  built-ins the module calls are not part of the module. They are the fields of a record
  that every operation takes as its first argument:
  \<^item> \<open>gisenv_MAPSET\<close>: \<open>gisenv()['MAPSET']\<close>, the current writable workspace name;
  \<^item> \<open>find_file_mapset\<close>: \<open>find_file(name=m)['mapset']\<close>, the workspace a raster resides
    in, or absence if it is not found;
  \<^item> \<open>environ\<close>: \<open>os.environ\<close>;
  \<^item> \<open>gettext\<close>: the message translation \<open>_\<close>;
  \<^item> \<open>read_command\<close>: the text a tool prints when it is run and waited for;
  \<^item> \<open>module_fails\<close>: whether \<open>write_command\<close> raises \<open>CalledModuleError\<close> (the tool
    exits nonzero);
  \<^item> \<open>getpid\<close>, \<open>time\<close>, \<open>hash\<close>: \<open>os.getpid()\<close>, \<open>time.time()\<close> and the built-in
    \<open>hash\<close> on the pair of them;
  \<^item> \<open>pyfloat\<close>: the built-in \<open>float\<close> on text (\<open>None\<close> is its \<open>ValueError\<close>);
  \<^item> \<open>float_or_dms\<close>: the degrees-minutes-seconds aware parser of \<open>utils.py\<close>;
  \<^item> \<open>parse_key_val\<close>: the key/value parser of \<open>utils.py\<close>;
  \<^item> \<open>fmt_f\<close>: the formatting \<open>'%f' % x\<close>.
  \<open>run_command\<close> and \<open>feed_command\<close> only have an effect, which is recorded as an
  \<^typ>\<open>event\<close>.
\<close>

record 'f world =
  gisenv_MAPSET :: string
  find_file_mapset :: "string \<Rightarrow> string option"
  environ :: "string \<rightharpoonup> string"
  gettext :: "string \<Rightarrow> string"
  read_command :: "invocation \<Rightarrow> string"
  module_fails :: "invocation \<Rightarrow> bool"
  getpid :: int
  time :: 'f
  hash :: "int \<times> 'f \<Rightarrow> int"
  pyfloat :: "string \<Rightarrow> 'f option"
  float_or_dms :: "string \<Rightarrow> 'f option"
  parse_key_val :: "string \<Rightarrow> (string \<rightharpoonup> string)"
  fmt_f :: "'f \<Rightarrow> string"

text \<open>
  Modelled from the spec: \<open>warning\<close> of \<open>core.py\<close> is not among the sources. It emits
  the message on the warning channel and returns.
\<close>

definition warning :: "string \<Rightarrow> event list" where
  "warning msg = [Warning msg]"

text \<open>
  Modelled from the spec: \<open>fatal\<close> of \<open>core.py\<close> is not among the sources. It emits the
  message on the fatal-error channel and terminates the operation: the caller gets no
  value and no exception to handle.
\<close>

definition fatal :: "string \<Rightarrow> 'a outcome \<times> event list" where
  "fatal msg = (Abort, [Fatal msg])"

section \<open>String operations of Python\<close>

text \<open>\<open>sep.join(xs)\<close>.\<close>

fun join :: "string \<Rightarrow> string list \<Rightarrow> string" where
  "join sep [] = []"
| "join sep [x] = x"
| "join sep (x # y # ys) = x @ sep @ join sep (y # ys)"

text \<open>
  \<open>s.split(sep)\<close> with a one-character separator: every occurrence of the separator ends
  a field, so the result has one field more than there are separators
  (\<open>''.split('|')\<close> is \<open>['']\<close>). The second argument is the field read so far, reversed.
\<close>

fun split_acc :: "char \<Rightarrow> string \<Rightarrow> string \<Rightarrow> string list" where
  "split_acc sep acc [] = [rev acc]"
| "split_acc sep acc (c # cs) =
     (if c = sep then rev acc # split_acc sep [] cs else split_acc sep (c # acc) cs)"

definition split_sep :: "char \<Rightarrow> string \<Rightarrow> string list" where
  "split_sep sep s = split_acc sep [] s"

text \<open>
  \<open>s.splitlines()\<close> on a byte string: a line ends at \<open>\n\<close>, at \<open>\r\<close> or at \<open>\r\n\<close>; the
  line ends are dropped and there is no empty last line (\<open>''.splitlines()\<close> is \<open>[]\<close>,
  \<open>'a\n'.splitlines()\<close> is \<open>['a']\<close>).
\<close>

fun splitlines_acc :: "string \<Rightarrow> string \<Rightarrow> string list" where
  "splitlines_acc acc [] = (if acc = [] then [] else [rev acc])"
| "splitlines_acc acc (c # cs) =
     (if c = CHR 0x0A then rev acc # splitlines_acc [] cs
      else if c = CHR 0x0D then
        (case cs of
           [] \<Rightarrow> [rev acc]
         | d # ds \<Rightarrow> if d = CHR 0x0A then rev acc # splitlines_acc [] ds
                    else rev acc # splitlines_acc [] (d # ds))
      else splitlines_acc (c # acc) cs)"

definition splitlines :: "string \<Rightarrow> string list" where
  "splitlines s = splitlines_acc [] s"

section \<open>The point sampler \<open>raster_what\<close>\<close>

datatype map_arg = MapName string | MapList "string list"

datatype 'f coord_arg = CoordTuple 'f 'f | CoordList "('f \<times> 'f) list"

type_synonym triple = "string \<rightharpoonup> string"

type_synonym sample = "string \<rightharpoonup> triple"

text \<open>
  The innermost loop, \<open>for j in range(len(labels)): tmp_dict[map_name][labels[j]] =
  line[i*len(labels)+j]\<close>. Reading \<open>line\<close> out of range raises \<open>IndexError\<close>.
\<close>

fun fill_labels ::
  "string list \<Rightarrow> string list \<Rightarrow> nat \<Rightarrow> nat list \<Rightarrow> triple \<Rightarrow> error + triple" where
  "fill_labels labels line i [] d = Inr d"
| "fill_labels labels line i (j # js) d =
     (if i * length labels + j < length line
      then fill_labels labels line i js (d(labels ! j \<mapsto> line ! (i * length labels + j)))
      else Inl IndexError)"

text \<open>
  The loop \<open>for i, map_name in enumerate(map_list)\<close>: a fresh \<open>tmp_dict\<close> with the one key
  \<open>map_name\<close> is built and appended to \<open>data\<close> in every round.
\<close>

fun what_maps ::
  "string list \<Rightarrow> string list \<Rightarrow> (nat \<times> string) list \<Rightarrow> sample list \<Rightarrow> error + sample list"
  where
  "what_maps labels line [] data = Inr data"
| "what_maps labels line ((i, map_name) # rest) data =
     (case fill_labels labels line i [0..<length labels] Map.empty of
        Inl e \<Rightarrow> Inl e
      | Inr d \<Rightarrow> what_maps labels line rest (data @ [[map_name \<mapsto> d]]))"

text \<open>The loop \<open>for item in ret.splitlines()\<close>, with \<open>line = item.split(sep)[3:]\<close>.\<close>

fun what_lines ::
  "char \<Rightarrow> string list \<Rightarrow> string list \<Rightarrow> string list \<Rightarrow> sample list \<Rightarrow> error + sample list"
  where
  "what_lines sep labels map_list [] data = Inr data"
| "what_lines sep labels map_list (item # items) data =
     (case what_maps labels (drop 3 (split_sep sep item)) (enumerate 0 map_list) data of
        Inl e \<Rightarrow> Inl e
      | Inr data' \<Rightarrow> what_lines sep labels map_list items data')"

definition what_labels :: "'f world \<Rightarrow> bool \<Rightarrow> string list" where
  "what_labels w localized =
     (if localized then [gettext w ''value'', gettext w ''label'', gettext w ''color'']
      else [''value'', ''label'', ''color''])"

text \<open>A single raster name stands for the list of that one name.\<close>

definition map_list_of :: "map_arg \<Rightarrow> string list" where
  "map_list_of mapv = (case mapv of MapName m \<Rightarrow> [m] | MapList ms \<Rightarrow> ms)"

definition what_invocation ::
  "'f world \<Rightarrow> map_arg \<Rightarrow> 'f coord_arg \<Rightarrow> pyval \<Rightarrow> invocation" where
  "what_invocation w mapv coord env =
     (let map_list = map_list_of mapv;
          coord_list = (case coord of
                          CoordTuple e n \<Rightarrow> [fmt_f w e @ '','' @ fmt_f w n]
                        | CoordList cs \<Rightarrow> map (\<lambda>(e, n). fmt_f w e @ '','' @ fmt_f w n) cs)
      in (''r.what'',
          [(''flags'', PStr ''rf''),
           (''map'', PStr (join '','' map_list)),
           (''coordinates'', PStr (join '','' coord_list)),
           (''null'', PStr (gettext w ''No data'')),
           (''quiet'', PBool True),
           (''env'', env)]))"

definition raster_what ::
  "'f world \<Rightarrow> map_arg \<Rightarrow> 'f coord_arg \<Rightarrow> pyval \<Rightarrow> bool \<Rightarrow> sample list outcome \<times> event list"
  where
  "raster_what w mapv coord env localized =
     (let map_list = map_list_of mapv;
          sep = CHR ''|'';
          cmd = what_invocation w mapv coord env;
          ret = read_command w cmd
      in if ret = [] then (Return [], [Read cmd])
         else
           (case what_lines sep (what_labels w localized) map_list (splitlines ret) [] of
              Inl e \<Rightarrow> (Raise e, [Read cmd])
            | Inr data \<Rightarrow> (Return data, [Read cmd])))"

section \<open>The history annotator \<open>raster_history\<close>\<close>

text \<open>
  \<open>os.environ['CMDLINE']\<close> raises \<open>KeyError\<close> when the variable is not set. The warning
  text is formatted from the raster name first and translated afterwards.
\<close>

definition raster_history :: "'f world \<Rightarrow> string \<Rightarrow> bool outcome \<times> event list" where
  "raster_history w mapv =
     (let current_mapset = gisenv_MAPSET w
      in if find_file_mapset w mapv = Some current_mapset then
           (case environ w ''CMDLINE'' of
              None \<Rightarrow> (Raise (KeyError ''CMDLINE''), [])
            | Some cmdline \<Rightarrow>
                (Return True,
                 [Run (''r.support'', [(''map'', PStr mapv), (''history'', PStr cmdline)])]))
         else
           (Return False,
            warning (gettext w (''Unable to write history for <'' @ mapv @ ''>. ''
                                @ ''Raster map <'' @ mapv
                                @ ''> not found in current mapset.''))))"

section \<open>The metadata reporter \<open>raster_info\<close>\<close>

definition float_or_null :: "'f world \<Rightarrow> string \<Rightarrow> error + 'f val" where
  "float_or_null w s =
     (if s = ''NULL'' then Inr NoneV
      else (case pyfloat w s of None \<Rightarrow> Inl ValueError | Some x \<Rightarrow> Inr (Float x)))"

definition to_float :: "'f world \<Rightarrow> string \<Rightarrow> error + 'f val" where
  "to_float w s = (case pyfloat w s of None \<Rightarrow> Inl ValueError | Some x \<Rightarrow> Inr (Float x))"

definition to_float_or_dms :: "'f world \<Rightarrow> string \<Rightarrow> error + 'f val" where
  "to_float_or_dms w s =
     (case float_or_dms w s of None \<Rightarrow> Inl ValueError | Some x \<Rightarrow> Inr (Float x))"

text \<open>
  A loop \<open>for k in keys: kv[k] = f(kv[k])\<close>: reading a missing key raises \<open>KeyError\<close>, the
  parser may raise, and the value is replaced in place.
\<close>

fun coerce ::
  "(string \<Rightarrow> error + 'f val) \<Rightarrow> string list \<Rightarrow> (string \<rightharpoonup> 'f val)
     \<Rightarrow> error + (string \<rightharpoonup> 'f val)" where
  "coerce f [] kv = Inr kv"
| "coerce f (k # ks) kv =
     (case kv k of
        None \<Rightarrow> Inl (KeyError k)
      | Some (Text s) \<Rightarrow>
          (case f s of Inl e \<Rightarrow> Inl e | Inr v \<Rightarrow> coerce f ks (kv(k \<mapsto> v)))
      | Some _ \<Rightarrow> Inl TypeError)"

definition info_invocation :: "string \<Rightarrow> invocation" where
  "info_invocation mapv = (''r.info'', [(''flags'', PStr ''gre''), (''map'', PStr mapv)])"

text \<open>The mapping \<open>parse_key_val\<close> gives: every value is text.\<close>

definition parsed :: "'f world \<Rightarrow> string \<Rightarrow> (string \<rightharpoonup> 'f val)" where
  "parsed w s = (\<lambda>k. map_option Text (parse_key_val w s k))"

definition raster_info ::
  "'f world \<Rightarrow> string \<Rightarrow> (string \<rightharpoonup> 'f val) outcome \<times> event list" where
  "raster_info w mapv =
     (let cmd = info_invocation mapv;
          s = read_command w cmd;
          kv = parsed w s
      in case coerce (float_or_null w) [''min'', ''max''] kv of
           Inl e \<Rightarrow> (Raise e, [Read cmd])
         | Inr kv1 \<Rightarrow>
             (case coerce (to_float w) [''north'', ''south'', ''east'', ''west''] kv1 of
                Inl e \<Rightarrow> (Raise e, [Read cmd])
              | Inr kv2 \<Rightarrow>
                  (case coerce (to_float_or_dms w) [''nsres'', ''ewres''] kv2 of
                     Inl e \<Rightarrow> (Raise e, [Read cmd])
                   | Inr kv3 \<Rightarrow> (Return kv3, [Read cmd]))))"

section \<open>Template substitution (\<open>string.Template\<close>)\<close>

text \<open>
  The placeholder pattern of \<open>string.Template\<close>: after the delimiter \<open>$\<close> comes a second
  \<open>$\<close> (an escape), an identifier \<open>[_a-zA-Z][_a-zA-Z0-9]*\<close>, an identifier in braces, or
  anything else, which is ill-formed. The alternatives are tried in this order and an
  identifier is as long as possible.
\<close>

definition is_id_start :: "char \<Rightarrow> bool" where
  "is_id_start c =
     (c = CHR ''_''
      \<or> (97 \<le> (of_char c :: nat) \<and> (of_char c :: nat) \<le> 122)
      \<or> (65 \<le> (of_char c :: nat) \<and> (of_char c :: nat) \<le> 90))"

definition is_id_char :: "char \<Rightarrow> bool" where
  "is_id_char c = (is_id_start c \<or> (48 \<le> (of_char c :: nat) \<and> (of_char c :: nat) \<le> 57))"

datatype token = Lit char | Escaped | Named string | Braced string | Invalid

text \<open>The text after \<open>${\<close>: the identifier and what follows the closing brace.\<close>

definition braced :: "string \<Rightarrow> (string \<times> string) option" where
  "braced ds =
     (case ds of
        [] \<Rightarrow> None
      | x # xs \<Rightarrow>
          if is_id_start x then
            (case dropWhile is_id_char ds of
               [] \<Rightarrow> None
             | r # rest \<Rightarrow> if r = CHR ''}'' then Some (takeWhile is_id_char ds, rest) else None)
          else None)"

lemma braced_shorter: "braced ds = Some (n, rest) \<Longrightarrow> length rest < length ds"
proof -
  assume a: "braced ds = Some (n, rest)"
  then obtain r where "dropWhile is_id_char ds = r # rest"
    by (auto simp: braced_def split: list.splits if_splits)
  then have "Suc (length rest) = length (dropWhile is_id_char ds)" by simp
  also have "\<dots> \<le> length ds" by (rule length_dropWhile_le)
  finally show ?thesis by simp
qed

function tokens :: "string \<Rightarrow> token list" where
  "tokens [] = []"
| "tokens (c # cs) =
     (if c \<noteq> CHR ''$'' then Lit c # tokens cs
      else
        (case cs of
           [] \<Rightarrow> [Invalid]
         | d # ds \<Rightarrow>
             if d = CHR ''$'' then Escaped # tokens ds
             else if is_id_start d then
               Named (takeWhile is_id_char cs) # tokens (dropWhile is_id_char cs)
             else if d = CHR ''{'' then
               (case braced ds of
                  Some (n, rest) \<Rightarrow> Braced n # tokens rest
                | None \<Rightarrow> Invalid # tokens cs)
             else Invalid # tokens cs))"
  by pat_completeness auto
termination
  apply (relation "measure length")
        apply (auto simp: less_SucI le_imp_less_Suc length_dropWhile_le dest: braced_shorter)
  done

declare tokens.simps [simp del]

text \<open>
  What \<open>substitute\<close> does with one match: a missing binding raises \<open>KeyError\<close>, an
  ill-formed placeholder raises \<open>ValueError\<close>. The bindings are the keyword arguments, as
  the text \<open>'%s'\<close> makes of each.
\<close>

fun convert :: "(string \<rightharpoonup> string) \<Rightarrow> token \<Rightarrow> error + string" where
  "convert m (Lit c) = Inr [c]"
| "convert m Escaped = Inr ''$''"
| "convert m (Named n) = (case m n of None \<Rightarrow> Inl (KeyError n) | Some v \<Rightarrow> Inr v)"
| "convert m (Braced n) = (case m n of None \<Rightarrow> Inl (KeyError n) | Some v \<Rightarrow> Inr v)"
| "convert m Invalid = Inl ValueError"

text \<open>The matches are replaced from left to right; the first error ends the substitution.\<close>

fun substitute_tokens :: "(string \<rightharpoonup> string) \<Rightarrow> token list \<Rightarrow> error + string" where
  "substitute_tokens m [] = Inr []"
| "substitute_tokens m (t # ts) =
     (case convert m t of
        Inl e \<Rightarrow> Inl e
      | Inr s \<Rightarrow>
          (case substitute_tokens m ts of Inl e \<Rightarrow> Inl e | Inr r \<Rightarrow> Inr (s @ r)))"

definition substitute :: "string \<Rightarrow> (string \<rightharpoonup> string) \<Rightarrow> error + string" where
  "substitute template kwargs = substitute_tokens kwargs (tokens template)"

section \<open>The expression evaluator: \<open>mapcalc\<close> and \<open>mapcalc_start\<close>\<close>

definition mapcalc ::
  "'f world \<Rightarrow> string \<Rightarrow> bool \<Rightarrow> bool \<Rightarrow> bool \<Rightarrow> pyval \<Rightarrow> pyval \<Rightarrow> (string \<rightharpoonup> string)
     \<Rightarrow> unit outcome \<times> event list" where
  "mapcalc w expr quiet verbose overwrite seed env kwargs =
     (let seed' = (if seed = PStr ''auto''
                   then PInt (hash w (getpid w, time w) mod 2 ^ 32) else seed)
      in case substitute expr kwargs of
           Inl err \<Rightarrow> (Raise err, [])
         | Inr e \<Rightarrow>
             (let cmd = (''r.mapcalc'',
                         [(''file'', PStr ''-''), (''stdin'', PStr e), (''env'', env),
                          (''seed'', seed'), (''quiet'', PBool quiet),
                          (''verbose'', PBool verbose), (''overwrite'', PBool overwrite)])
              in if module_fails w cmd
                 then (case fatal (gettext w ''An error occurred while running r.mapcalc'') of
                         (r, evs) \<Rightarrow> (r, Write cmd # evs))
                 else (Return (), [Write cmd])))"

definition mapcalc_start ::
  "'f world \<Rightarrow> string \<Rightarrow> bool \<Rightarrow> bool \<Rightarrow> bool \<Rightarrow> pyval \<Rightarrow> pyval \<Rightarrow> (string \<rightharpoonup> string)
     \<Rightarrow> popen outcome \<times> event list" where
  "mapcalc_start w expr quiet verbose overwrite seed env kwargs =
     (let seed' = (if seed = PStr ''auto''
                   then PInt (hash w (getpid w, time w) mod 2 ^ 32) else seed)
      in case substitute expr kwargs of
           Inl err \<Rightarrow> (Raise err, [])
         | Inr e \<Rightarrow>
             (let p = (''r.mapcalc'',
                       [(''file'', PStr ''-''), (''env'', env),
                        (''seed'', seed'), (''quiet'', PBool quiet),
                        (''verbose'', PBool verbose), (''overwrite'', PBool overwrite)])
              in (Return (Popen p), [Feed p, StdinWrite e, StdinClose])))"

text \<open>The keyword argument \<open>k\<close> of an invocation.\<close>

definition kwarg :: "invocation \<Rightarrow> string \<Rightarrow> pyval option" where
  "kwarg cmd k = map_of (snd cmd) k"

section \<open>A sample session\<close>

text \<open>
  A concrete set of collaborators, on which the operations can be run: the current mapset
  is \<open>user1\<close>, the raster \<open>elevation\<close> lives in \<open>PERMANENT\<close> and \<open>slope\<close> in \<open>user1\<close>.
  Floating-point numbers are real numbers here and the parsers are tables.
\<close>

definition demo_float :: "string \<Rightarrow> real option" where
  "demo_float s =
     map_of [(''10.5'', 21 / 2), (''228500'', 228500), (''215000'', 215000),
             (''645000'', 645000), (''630000'', 630000), (''10'', 10)] s"

definition demo_dms :: "string \<Rightarrow> real option" where
  "demo_dms s = (if s = ''0:00:30'' then Some (1 / 120) else demo_float s)"

definition demo_fmt :: "real \<Rightarrow> string" where
  "demo_fmt x =
     (if x = 640000 then ''640000.000000''
      else if x = 228000 then ''228000.000000'' else ''0.000000'')"

definition key_val :: "string \<Rightarrow> string \<times> string" where
  "key_val l =
     (takeWhile (\<lambda>c. c \<noteq> CHR ''='') l, drop 1 (dropWhile (\<lambda>c. c \<noteq> CHR ''='') l))"

definition demo_parse_key_val :: "string \<Rightarrow> (string \<rightharpoonup> string)" where
  "demo_parse_key_val s = map_of (rev (map key_val (splitlines s)))"

definition demo_info_text :: string where
  "demo_info_text =
     join [CHR 0x0A]
       [''north=228500'', ''south=215000'', ''east=645000'', ''west=630000'',
        ''nsres=0:00:30'', ''ewres=10'', ''min=NULL'', ''max=10.5'', ''datatype=FCELL'']"

definition demo_what_text :: string where
  "demo_what_text = ''640000|228000||102.479||255:214:000|3.14|gentle|255:255:000''"

definition demo_read_command :: "invocation \<Rightarrow> string" where
  "demo_read_command cmd =
     (if fst cmd = ''r.info'' then
        (if kwarg cmd ''map'' = Some (PStr ''elevation'') then demo_info_text
         else join [CHR 0x0A] [''min=NULL'', ''max=10.5''])
      else if fst cmd = ''r.what'' then
        (if kwarg cmd ''map'' = Some (PStr ''nothing'') then [] else demo_what_text)
      else [])"

definition demo_world :: "real world" where
  "demo_world =
     \<lparr> gisenv_MAPSET = ''user1'',
       find_file_mapset =
         (\<lambda>m. if m = ''elevation'' then Some ''PERMANENT''
              else if m = ''slope'' then Some ''user1'' else None),
       environ = [''CMDLINE'' \<mapsto> ''r.slope.aspect elevation=elevation slope=slope''],
       gettext = (\<lambda>s. s),
       read_command = demo_read_command,
       module_fails = (\<lambda>cmd. kwarg cmd ''stdin'' = Some (PStr ''newele = nosuchmap * 2'')),
       getpid = 4242,
       time = 1700000000.25,
       hash = (\<lambda>(p, t). - (p * 1000003) - \<lfloor>t\<rfloor>),
       pyfloat = demo_float,
       float_or_dms = demo_dms,
       parse_key_val = demo_parse_key_val,
       fmt_f = demo_fmt \<rparr>"

text \<open>The same session started without the variable \<open>CMDLINE\<close>.\<close>

definition demo_world_no_cmdline :: "real world" where
  "demo_world_no_cmdline = demo_world \<lparr> environ := Map.empty \<rparr>"

section \<open>Properties of the metadata reporter: lemmas\<close>

lemma coerce_frame:
  "coerce f ks kv = Inr kv' \<Longrightarrow> dom kv' = dom kv \<and> (\<forall>k. k \<notin> set ks \<longrightarrow> kv' k = kv k)"
proof (induction ks arbitrary: kv)
  case Nil
  then show ?case by simp
next
  case (Cons k ks)
  from Cons.prems obtain s v where
    s: "kv k = Some (Text s)" and v: "f s = Inr v"
    and rest: "coerce f ks (kv(k \<mapsto> v)) = Inr kv'"
    by (auto split: option.splits val.splits sum.splits)
  from Cons.IH [OF rest] have
    d: "dom kv' = dom (kv(k \<mapsto> v))" and u: "\<forall>j. j \<notin> set ks \<longrightarrow> kv' j = (kv(k \<mapsto> v)) j"
    by blast+
  from s have "k \<in> dom kv" by auto
  with d have "dom kv' = dom kv" by auto
  moreover from u have "\<forall>j. j \<notin> set (k # ks) \<longrightarrow> kv' j = kv j" by simp
  ultimately show ?case by simp
qed

lemma coerce_value:
  "coerce f ks kv = Inr kv' \<Longrightarrow> distinct ks \<Longrightarrow> k \<in> set ks
     \<Longrightarrow> \<exists>s v. kv k = Some (Text s) \<and> f s = Inr v \<and> kv' k = Some v"
proof (induction ks arbitrary: kv)
  case Nil
  then show ?case by simp
next
  case (Cons k0 ks)
  from Cons.prems(1) obtain s v where
    s: "kv k0 = Some (Text s)" and v: "f s = Inr v"
    and rest: "coerce f ks (kv(k0 \<mapsto> v)) = Inr kv'"
    by (auto split: option.splits val.splits sum.splits)
  show ?case
  proof (cases "k = k0")
    case True
    from Cons.prems(2) have "k0 \<notin> set ks" by simp
    with coerce_frame [OF rest] have "kv' k0 = Some v" by simp
    with True s v show ?thesis by simp
  next
    case False
    with Cons.prems have "k \<in> set ks" and "distinct ks" by simp_all
    from Cons.IH [OF rest this(2) this(1)] False show ?thesis by simp
  qed
qed

lemma coerce_total:
  "\<forall>k\<in>set ks. \<exists>s v. kv k = Some (Text s) \<and> f s = Inr v \<Longrightarrow> distinct ks
     \<Longrightarrow> \<exists>kv'. coerce f ks kv = Inr kv'"
proof (induction ks arbitrary: kv)
  case Nil
  then show ?case by simp
next
  case (Cons k ks)
  from Cons.prems(1) obtain s v where s: "kv k = Some (Text s)" and v: "f s = Inr v"
    by auto
  have "\<exists>s' v'. (kv(k \<mapsto> v)) j = Some (Text s') \<and> f s' = Inr v'" if "j \<in> set ks" for j
  proof -
    from that Cons.prems(2) have "j \<noteq> k" by auto
    moreover from that Cons.prems(1) obtain s' v' where
      "kv j = Some (Text s')" "f s' = Inr v'" by auto
    ultimately show ?thesis by simp
  qed
  then have "\<forall>j\<in>set ks. \<exists>s' v'. (kv(k \<mapsto> v)) j = Some (Text s') \<and> f s' = Inr v'"
    by blast
  moreover from Cons.prems(2) have "distinct ks" by simp
  ultimately obtain kv' where "coerce f ks (kv(k \<mapsto> v)) = Inr kv'"
    using Cons.IH by blast
  with s v show ?case by simp
qed

text \<open>The eight fields \<open>raster_info\<close> coerces.\<close>

lemma info_keys_disjoint:
  "k \<in> set [''min'', ''max''] \<Longrightarrow> k \<notin> set [''north'', ''south'', ''east'', ''west'']"
  "k \<in> set [''min'', ''max''] \<Longrightarrow> k \<notin> set [''nsres'', ''ewres'']"
  "k \<in> set [''north'', ''south'', ''east'', ''west''] \<Longrightarrow> k \<notin> set [''min'', ''max'']"
  "k \<in> set [''north'', ''south'', ''east'', ''west''] \<Longrightarrow> k \<notin> set [''nsres'', ''ewres'']"
  "k \<in> set [''nsres'', ''ewres''] \<Longrightarrow> k \<notin> set [''min'', ''max'']"
  "k \<in> set [''nsres'', ''ewres''] \<Longrightarrow> k \<notin> set [''north'', ''south'', ''east'', ''west'']"
  by auto

lemma coerce_other: "coerce f ks kv = Inr kv' \<Longrightarrow> k \<notin> set ks \<Longrightarrow> kv' k = kv k"
  using coerce_frame by blast

lemma raster_info_returns:
  fixes w :: "'f world" and m :: string
  defines "kv \<equiv> parse_key_val w (read_command w (info_invocation m))"
  assumes a1: "\<And>k. k \<in> set [''min'', ''max'']
                 \<Longrightarrow> \<exists>s v. kv k = Some s \<and> float_or_null w s = Inr v"
    and a2: "\<And>k. k \<in> set [''north'', ''south'', ''east'', ''west'']
                 \<Longrightarrow> \<exists>s v. kv k = Some s \<and> to_float w s = Inr v"
    and a3: "\<And>k. k \<in> set [''nsres'', ''ewres'']
                 \<Longrightarrow> \<exists>s v. kv k = Some s \<and> to_float_or_dms w s = Inr v"
  shows "\<exists>r. raster_info w m = (Return r, [Read (info_invocation m)])
           \<and> (\<forall>k\<in>set [''min'', ''max''].
                 \<exists>s v. kv k = Some s \<and> float_or_null w s = Inr v \<and> r k = Some v)
           \<and> (\<forall>k\<in>set [''north'', ''south'', ''east'', ''west''].
                 \<exists>s v. kv k = Some s \<and> to_float w s = Inr v \<and> r k = Some v)
           \<and> (\<forall>k\<in>set [''nsres'', ''ewres''].
                 \<exists>s v. kv k = Some s \<and> to_float_or_dms w s = Inr v \<and> r k = Some v)"
proof -
  let ?k1 = "[''min'', ''max'']"
  let ?k2 = "[''north'', ''south'', ''east'', ''west'']"
  let ?k3 = "[''nsres'', ''ewres'']"
  define kv0 where "kv0 = parsed w (read_command w (info_invocation m))"
  have kv0: "kv0 k = map_option Text (kv k)" for k
    by (simp add: parsed_def kv_def kv0_def)
  have tx: "kv k = Some s" if "kv0 k = Some (Text s)" for k s
    using that by (auto simp: kv0)
  have d1: "distinct ?k1" and d2: "distinct ?k2" and d3: "distinct ?k3" by simp_all
  have "\<exists>s v. kv0 k = Some (Text s) \<and> float_or_null w s = Inr v" if "k \<in> set ?k1" for k
    using a1 [OF that] by (auto simp: kv0)
  then have "\<forall>k\<in>set ?k1. \<exists>s v. kv0 k = Some (Text s) \<and> float_or_null w s = Inr v"
    by blast
  from coerce_total [OF this d1] obtain kv1 where
    c1: "coerce (float_or_null w) ?k1 kv0 = Inr kv1" by blast
  have "\<exists>s v. kv1 k = Some (Text s) \<and> to_float w s = Inr v" if "k \<in> set ?k2" for k
  proof -
    have "kv1 k = kv0 k" by (rule coerce_other [OF c1 info_keys_disjoint(3) [OF that]])
    with a2 [OF that] show ?thesis by (auto simp: kv0)
  qed
  then have "\<forall>k\<in>set ?k2. \<exists>s v. kv1 k = Some (Text s) \<and> to_float w s = Inr v"
    by blast
  from coerce_total [OF this d2] obtain kv2 where
    c2: "coerce (to_float w) ?k2 kv1 = Inr kv2" by blast
  have "\<exists>s v. kv2 k = Some (Text s) \<and> to_float_or_dms w s = Inr v" if "k \<in> set ?k3" for k
  proof -
    have "kv2 k = kv1 k" by (rule coerce_other [OF c2 info_keys_disjoint(6) [OF that]])
    also have "\<dots> = kv0 k" by (rule coerce_other [OF c1 info_keys_disjoint(5) [OF that]])
    finally show ?thesis using a3 [OF that] by (auto simp: kv0)
  qed
  then have "\<forall>k\<in>set ?k3. \<exists>s v. kv2 k = Some (Text s) \<and> to_float_or_dms w s = Inr v"
    by blast
  from coerce_total [OF this d3] obtain kv3 where
    c3: "coerce (to_float_or_dms w) ?k3 kv2 = Inr kv3" by blast
  have r: "raster_info w m = (Return kv3, [Read (info_invocation m)])"
    using c1 c2 c3 by (simp add: raster_info_def Let_def kv0_def)
  have v1: "\<exists>s v. kv k = Some s \<and> float_or_null w s = Inr v \<and> kv3 k = Some v"
    if "k \<in> set ?k1" for k
  proof -
    from coerce_value [OF c1 d1 that] obtain s v where
      *: "kv0 k = Some (Text s)" "float_or_null w s = Inr v" "kv1 k = Some v" by blast
    have "kv3 k = kv2 k" by (rule coerce_other [OF c3 info_keys_disjoint(2) [OF that]])
    also have "\<dots> = kv1 k" by (rule coerce_other [OF c2 info_keys_disjoint(1) [OF that]])
    finally have "kv3 k = Some v" using * by simp
    moreover from *(1) have "kv k = Some s" by (rule tx)
    ultimately show ?thesis using * by simp
  qed
  have v2: "\<exists>s v. kv k = Some s \<and> to_float w s = Inr v \<and> kv3 k = Some v"
    if "k \<in> set ?k2" for k
  proof -
    from coerce_value [OF c2 d2 that] obtain s v where
      *: "kv1 k = Some (Text s)" "to_float w s = Inr v" "kv2 k = Some v" by blast
    have "kv1 k = kv0 k" by (rule coerce_other [OF c1 info_keys_disjoint(3) [OF that]])
    with *(1) have "kv0 k = Some (Text s)" by metis
    then have "kv k = Some s" by (rule tx)
    moreover have "kv3 k = kv2 k"
      by (rule coerce_other [OF c3 info_keys_disjoint(4) [OF that]])
    ultimately show ?thesis using * by simp
  qed
  have v3: "\<exists>s v. kv k = Some s \<and> to_float_or_dms w s = Inr v \<and> kv3 k = Some v"
    if "k \<in> set ?k3" for k
  proof -
    from coerce_value [OF c3 d3 that] obtain s v where
      *: "kv2 k = Some (Text s)" "to_float_or_dms w s = Inr v" "kv3 k = Some v" by blast
    have "kv2 k = kv1 k" by (rule coerce_other [OF c2 info_keys_disjoint(6) [OF that]])
    also have "\<dots> = kv0 k" by (rule coerce_other [OF c1 info_keys_disjoint(5) [OF that]])
    finally have "kv0 k = Some (Text s)" using *(1) by metis
    then have "kv k = Some s" by (rule tx)
    with * show ?thesis by simp
  qed
  from r v1 v2 v3 show ?thesis by blast
qed

lemma raster_info_frame:
  assumes "raster_info w m = (Return r, t)"
  shows "dom r = dom (parse_key_val w (read_command w (info_invocation m)))"
    and "k \<notin> set [''min'', ''max''] \<Longrightarrow> k \<notin> set [''north'', ''south'', ''east'', ''west'']
           \<Longrightarrow> k \<notin> set [''nsres'', ''ewres'']
           \<Longrightarrow> r k = map_option Text (parse_key_val w (read_command w (info_invocation m)) k)"
proof -
  define kv0 where "kv0 = parsed w (read_command w (info_invocation m))"
  from assms obtain kv1 kv2 where
    c1: "coerce (float_or_null w) [''min'', ''max''] kv0 = Inr kv1"
    and c2: "coerce (to_float w) [''north'', ''south'', ''east'', ''west''] kv1 = Inr kv2"
    and c3: "coerce (to_float_or_dms w) [''nsres'', ''ewres''] kv2 = Inr r"
    unfolding raster_info_def Let_def kv0_def by (simp split: sum.splits)
  have "dom kv0 = dom (parse_key_val w (read_command w (info_invocation m)))"
    by (auto simp: parsed_def dom_def kv0_def)
  moreover have "dom r = dom kv2" using coerce_frame [OF c3] by blast
  moreover have "dom kv2 = dom kv1" using coerce_frame [OF c2] by blast
  moreover have "dom kv1 = dom kv0" using coerce_frame [OF c1] by blast
  ultimately show "dom r = dom (parse_key_val w (read_command w (info_invocation m)))"
    by simp
next
  define kv0 where "kv0 = parsed w (read_command w (info_invocation m))"
  assume k: "k \<notin> set [''min'', ''max'']" "k \<notin> set [''north'', ''south'', ''east'', ''west'']"
    "k \<notin> set [''nsres'', ''ewres'']"
  from assms obtain kv1 kv2 where
    c1: "coerce (float_or_null w) [''min'', ''max''] kv0 = Inr kv1"
    and c2: "coerce (to_float w) [''north'', ''south'', ''east'', ''west''] kv1 = Inr kv2"
    and c3: "coerce (to_float_or_dms w) [''nsres'', ''ewres''] kv2 = Inr r"
    unfolding raster_info_def Let_def kv0_def by (simp split: sum.splits)
  have "r k = kv2 k" by (rule coerce_other [OF c3 k(3)])
  also have "\<dots> = kv1 k" by (rule coerce_other [OF c2 k(2)])
  also have "\<dots> = kv0 k" by (rule coerce_other [OF c1 k(1)])
  finally show "r k = map_option Text (parse_key_val w (read_command w (info_invocation m)) k)"
    by (simp add: parsed_def kv0_def)
qed

lemma float_or_null_cases:
  "float_or_null w s = Inr v \<longleftrightarrow>
     (s = ''NULL'' \<and> v = NoneV) \<or> (s \<noteq> ''NULL'' \<and> (\<exists>x. pyfloat w s = Some x \<and> v = Float x))"
  by (auto simp: float_or_null_def split: option.splits)

lemma to_float_cases: "to_float w s = Inr v \<longleftrightarrow> (\<exists>x. pyfloat w s = Some x \<and> v = Float x)"
  by (auto simp: to_float_def split: option.splits)

lemma to_float_or_dms_cases:
  "to_float_or_dms w s = Inr v \<longleftrightarrow> (\<exists>x. float_or_dms w s = Some x \<and> v = Float x)"
  by (auto simp: to_float_or_dms_def split: option.splits)

lemma demo_info_kv:
  "parse_key_val demo_world (read_command demo_world (info_invocation ''elevation''))
     = map_of [(''datatype'', ''FCELL''), (''max'', ''10.5''), (''min'', ''NULL''),
               (''ewres'', ''10''), (''nsres'', ''0:00:30''), (''west'', ''630000''),
               (''east'', ''645000''), (''south'', ''215000''), (''north'', ''228500'')]"
  by (simp add: demo_world_def demo_read_command_def kwarg_def info_invocation_def
      demo_info_text_def demo_parse_key_val_def splitlines_def key_val_def)

lemma demo_short_kv:
  "parse_key_val demo_world (read_command demo_world (info_invocation ''slope''))
     = map_of [(''max'', ''10.5''), (''min'', ''NULL'')]"
  by (simp add: demo_world_def demo_read_command_def kwarg_def info_invocation_def
      demo_parse_key_val_def splitlines_def key_val_def)

lemma demo_parsers:
  "pyfloat demo_world = demo_float" "float_or_dms demo_world = demo_dms"
  by (simp_all add: demo_world_def)

lemma demo_float_values:
  "demo_float ''10.5'' = Some (21 / 2)" "demo_float ''228500'' = Some 228500"
  "demo_float ''215000'' = Some 215000" "demo_float ''645000'' = Some 645000"
  "demo_float ''630000'' = Some 630000" "demo_dms ''0:00:30'' = Some (1 / 120)"
  "demo_dms ''10'' = Some 10"
  by (simp_all add: demo_float_def demo_dms_def)

lemma demo_info_returns:
  "\<exists>r. raster_info demo_world ''elevation''
         = (Return r, [Read (info_invocation ''elevation'')])"
proof -
  let ?kv = "parse_key_val demo_world (read_command demo_world (info_invocation ''elevation''))"
  have "\<exists>s v. ?kv k = Some s \<and> float_or_null demo_world s = Inr v"
    if "k \<in> set [''min'', ''max'']" for k
    using that
    by (auto simp: demo_info_kv float_or_null_def demo_parsers demo_float_values)
  moreover have "\<exists>s v. ?kv k = Some s \<and> to_float demo_world s = Inr v"
    if "k \<in> set [''north'', ''south'', ''east'', ''west'']" for k
    using that by (auto simp: demo_info_kv to_float_def demo_parsers demo_float_values)
  moreover have "\<exists>s v. ?kv k = Some s \<and> to_float_or_dms demo_world s = Inr v"
    if "k \<in> set [''nsres'', ''ewres'']" for k
    using that by (auto simp: demo_info_kv to_float_or_dms_def demo_parsers demo_float_values)
  ultimately show ?thesis using raster_info_returns [of demo_world "''elevation''"] by blast
qed

section \<open>Properties of the annotator and of the evaluator: lemmas\<close>

lemma warning_without_location:
  "\<not> sublist ''PERMANENT''
       ''Unable to write history for <elevation>. Raster map <elevation> not found in current mapset.''"
  by code_simp

lemma substitute_tokens_error:
  "substitute_tokens m ts = Inl e \<Longrightarrow> e = ValueError \<or> (\<exists>k. e = KeyError k \<and> m k = None)"
proof (induction ts)
  case Nil
  then show ?case by simp
next
  case (Cons t ts)
  show ?case
  proof (cases "convert m t")
    case (Inl e')
    with Cons.prems have "e' = e" by simp
    with Inl show ?thesis by (cases t) (auto split: option.splits)
  next
    case (Inr s)
    with Cons.prems have "substitute_tokens m ts = Inl e" by (simp split: sum.splits)
    then show ?thesis by (rule Cons.IH)
  qed
qed

lemma substitute_tokens_missing:
  "Named n \<in> set ts \<or> Braced n \<in> set ts \<Longrightarrow> m n = None
     \<Longrightarrow> \<exists>e. substitute_tokens m ts = Inl e"
proof (induction ts)
  case Nil
  then show ?case by simp
next
  case (Cons t ts)
  show ?case
  proof (cases "convert m t")
    case (Inl e)
    then show ?thesis by simp
  next
    case (Inr s)
    with Cons.prems(2) have "t \<noteq> Named n" "t \<noteq> Braced n" by auto
    with Cons.prems(1) have "Named n \<in> set ts \<or> Braced n \<in> set ts" by auto
    from Cons.IH [OF this Cons.prems(2)] Inr show ?thesis by auto
  qed
qed

lemmas id_simps = tokens.simps is_id_start_def is_id_char_def braced_def

lemma demo_tokens:
  "tokens ''$out = ${inp} * 2''
     = [Named ''out'', Lit CHR '' '', Lit CHR ''='', Lit CHR '' '', Braced ''inp'',
        Lit CHR '' '', Lit CHR ''*'', Lit CHR '' '', Lit CHR ''2'']"
  by (simp add: id_simps)

lemma demo_substitute:
  "substitute ''$out = ${inp} * 2'' [''out'' \<mapsto> ''newele'', ''inp'' \<mapsto> ''elevation'']
     = Inr ''newele = elevation * 2''"
  by (simp add: substitute_def demo_tokens)

lemma demo_substitute_plain:
  "substitute ''newele = nosuchmap * 2'' Map.empty = Inr ''newele = nosuchmap * 2''"
  by (simp add: substitute_def id_simps)

lemma demo_auto_seed:
  "hash demo_world (getpid demo_world, time demo_world) mod 2 ^ 32 = 2647921866"
  by (simp add: demo_world_def)

lemma mapcalc_trace:
  assumes "substitute expr kwargs = Inr e"
  shows "snd (mapcalc w expr quiet verbose overwrite seed env kwargs)
           = Write (''r.mapcalc'',
                    [(''file'', PStr ''-''), (''stdin'', PStr e), (''env'', env),
                     (''seed'', if seed = PStr ''auto''
                                then PInt (hash w (getpid w, time w) mod 2 ^ 32) else seed),
                     (''quiet'', PBool quiet), (''verbose'', PBool verbose),
                     (''overwrite'', PBool overwrite)])
             # (if module_fails w
                     (''r.mapcalc'',
                      [(''file'', PStr ''-''), (''stdin'', PStr e), (''env'', env),
                       (''seed'', if seed = PStr ''auto''
                                  then PInt (hash w (getpid w, time w) mod 2 ^ 32) else seed),
                       (''quiet'', PBool quiet), (''verbose'', PBool verbose),
                       (''overwrite'', PBool overwrite)])
                then [Fatal (gettext w ''An error occurred while running r.mapcalc'')]
                else [])"
  using assms by (simp add: mapcalc_def fatal_def Let_def)

lemma mapcalc_start_result:
  assumes "substitute expr kwargs = Inr e"
  shows "mapcalc_start w expr quiet verbose overwrite seed env kwargs
           = (Return (Popen (''r.mapcalc'',
                    [(''file'', PStr ''-''), (''env'', env),
                     (''seed'', if seed = PStr ''auto''
                                then PInt (hash w (getpid w, time w) mod 2 ^ 32) else seed),
                     (''quiet'', PBool quiet), (''verbose'', PBool verbose),
                     (''overwrite'', PBool overwrite)])),
              [Feed (''r.mapcalc'',
                    [(''file'', PStr ''-''), (''env'', env),
                     (''seed'', if seed = PStr ''auto''
                                then PInt (hash w (getpid w, time w) mod 2 ^ 32) else seed),
                     (''quiet'', PBool quiet), (''verbose'', PBool verbose),
                     (''overwrite'', PBool overwrite)]),
               StdinWrite e, StdinClose])"
  using assms by (simp add: mapcalc_start_def Let_def)

lemma mapcalc_raises:
  assumes "substitute expr kwargs = Inl err"
  shows "mapcalc w expr quiet verbose overwrite seed env kwargs = (Raise err, [])"
    and "mapcalc_start w expr quiet verbose overwrite seed env kwargs = (Raise err, [])"
  using assms by (simp_all add: mapcalc_def mapcalc_start_def)

section \<open>Properties of the point sampler\<close>

lemmas demo_simps = demo_world_def demo_read_command_def kwarg_def demo_fmt_def
  demo_what_text_def what_invocation_def map_list_of_def

lemma fill_labels_error:
  "fill_labels labels line i js d = Inl e \<Longrightarrow> e = IndexError"
  by (induction js arbitrary: d) (auto split: if_splits)

lemma fill_labels_in_range:
  "fill_labels labels line i js d = Inr d' \<Longrightarrow> j \<in> set js
     \<Longrightarrow> i * length labels + j < length line"
  by (induction js arbitrary: d) (auto split: if_splits)

lemma what_maps_error:
  "what_maps labels line ims data = Inl e \<Longrightarrow> e = IndexError"
  by (induction ims arbitrary: data)
     (auto split: sum.splits dest: fill_labels_error)

lemma what_maps_in_range:
  assumes "what_maps labels line ims data = Inr data'" and "(i, m) \<in> set ims"
    and "labels \<noteq> []"
  shows "(i + 1) * length labels \<le> length line"
  using assms
proof (induction ims arbitrary: data)
  case Nil
  then show ?case by simp
next
  case (Cons im ims)
  obtain i' m' where im: "im = (i', m')" by (cases im)
  from Cons.prems(1) im obtain d where
    d: "fill_labels labels line i' [0..<length labels] Map.empty = Inr d"
    and rest: "what_maps labels line ims (data @ [[m' \<mapsto> d]]) = Inr data'"
    by (auto split: sum.splits)
  show ?case
  proof (cases "(i, m) = im")
    case True
    from Cons.prems(3) have "length labels - 1 \<in> set [0..<length labels]" by simp
    from fill_labels_in_range [OF d this] True im Cons.prems(3) show ?thesis
      by (cases labels) (simp_all)
  next
    case False
    with Cons.prems(2) have "(i, m) \<in> set ims" by simp
    from Cons.IH [OF rest this Cons.prems(3)] show ?thesis .
  qed
qed

lemma what_maps_short:
  assumes "length line < length labels * length ms"
  shows "what_maps labels line (enumerate 0 ms) data = Inl IndexError"
proof (cases "what_maps labels line (enumerate 0 ms) data")
  case (Inl e)
  then show ?thesis by (simp add: what_maps_error)
next
  case (Inr data')
  from assms have ms: "ms \<noteq> []" and ls: "labels \<noteq> []" by auto
  from ms have "(length ms - 1, ms ! (length ms - 1)) \<in> set (enumerate 0 ms)"
    by (simp add: in_set_enumerate_eq)
  from what_maps_in_range [OF Inr this ls] ms have "length ms * length labels \<le> length line"
    by (cases ms) simp_all
  with assms show ?thesis by (simp add: mult.commute)
qed

lemma what_lines_error:
  "what_lines sep labels ms items data = Inl e \<Longrightarrow> e = IndexError"
  by (induction items arbitrary: data)
     (auto split: sum.splits dest: what_maps_error)

lemma what_lines_short:
  assumes "item \<in> set items"
    and "length (drop 3 (split_sep sep item)) < length labels * length ms"
  shows "what_lines sep labels ms items data = Inl IndexError"
  using assms(1)
proof (induction items arbitrary: data)
  case Nil
  then show ?case by simp
next
  case (Cons x xs)
  show ?case
  proof (cases "what_maps labels (drop 3 (split_sep sep x)) (enumerate 0 ms) data")
    case (Inl e)
    then show ?thesis by (simp add: what_maps_error)
  next
    case (Inr data')
    have "x \<noteq> item"
    proof
      assume "x = item"
      with what_maps_short [OF assms(2), of data] Inr show False by simp
    qed
    with Cons.prems have "item \<in> set xs" by simp
    from Cons.IH [OF this] Inr show ?thesis by simp
  qed
qed

lemma length_what_labels: "length (what_labels w localized) = 3"
  by (simp add: what_labels_def)

lemma raster_what_single_line:
  assumes "read_command w (what_invocation w (MapList [a, b]) coord env) = ret"
    and "splitlines ret = [item]"
    and "split_sep (CHR ''|'') item = [p1, p2, p3, v1, l1, c1, v2, l2, c2]"
    and "what_labels w localized = [kv, kl, kc]"
  shows "raster_what w (MapList [a, b]) coord env localized
           = (Return [[a \<mapsto> [kv \<mapsto> v1, kl \<mapsto> l1, kc \<mapsto> c1]],
                      [b \<mapsto> [kv \<mapsto> v2, kl \<mapsto> l2, kc \<mapsto> c2]]],
              [Read (what_invocation w (MapList [a, b]) coord env)])"
proof -
  from assms(2) have ne: "ret \<noteq> []" by (auto simp: splitlines_def)
  have up: "[0..<3] = [0, Suc 0, Suc (Suc 0)]" by (simp add: eval_nat_numeral upt_rec)
  have en: "enumerate 0 [a, b] = [(0, a), (Suc 0, b)]" by simp
  show ?thesis
    using ne assms
    by (simp add: raster_what_def Let_def map_list_of_def up en)
qed

lemma demo_what_read:
  "read_command demo_world
     (what_invocation demo_world (MapList [''elevation'', ''slope''])
        (CoordList [(640000, 228000)]) PNone) = demo_what_text"
  by (simp add: demo_simps)

lemma demo_what_lines: "splitlines demo_what_text = [demo_what_text]"
  by (simp add: demo_what_text_def splitlines_def)

lemma demo_what_fields:
  "split_sep (CHR ''|'') demo_what_text
     = [''640000'', ''228000'', [], ''102.479'', [], ''255:214:000'',
        ''3.14'', ''gentle'', ''255:255:000'']"
  by (simp add: demo_what_text_def split_sep_def)

text \<open>
  C9: when the sampler tool's captured output is empty, \<open>raster_what\<close> returns the empty
  sequence and raises no error; the tool has been run once.
\<close>

theorem raster_what_empty_output:
  "read_command w (what_invocation w mapv coord env) = [] \<Longrightarrow>
   raster_what w mapv coord env localized
     = (Return [], [Read (what_invocation w mapv coord env)])"
  by (simp add: raster_what_def Let_def)

theorem raster_what_empty_output_witness:
  "read_command demo_world
     (what_invocation demo_world (MapName ''nothing'') (CoordTuple 640000 228000) PNone) = []
   \<and> raster_what demo_world (MapName ''nothing'') (CoordTuple 640000 228000) PNone False
     = (Return [],
        [Read (''r.what'',
               [(''flags'', PStr ''rf''), (''map'', PStr ''nothing''),
                (''coordinates'', PStr ''640000.000000,228000.000000''),
                (''null'', PStr ''No data''), (''quiet'', PBool True), (''env'', PNone)])])"
proof -
  have h: "read_command demo_world
     (what_invocation demo_world (MapName ''nothing'') (CoordTuple 640000 228000) PNone) = []"
    by (simp add: demo_simps)
  from raster_what_empty_output [OF h, of False] h show ?thesis
    by (simp add: demo_simps)
qed

text \<open>
  C10: when the sampler output is not empty and one of its lines, split at the pipe and
  without the 3-field prefix, has fewer than 3 fields for each requested raster,
  \<open>raster_what\<close> raises \<open>IndexError\<close>: nothing checks the number of columns, and no
  other error is produced.
\<close>

theorem raster_what_short_line:
  assumes "read_command w (what_invocation w mapv coord env) \<noteq> []"
    and "item \<in> set (splitlines (read_command w (what_invocation w mapv coord env)))"
    and "length (drop 3 (split_sep (CHR ''|'') item)) < 3 * length (map_list_of mapv)"
  shows "raster_what w mapv coord env localized
           = (Raise IndexError, [Read (what_invocation w mapv coord env)])"
proof -
  from assms(3) have
    "length (drop 3 (split_sep (CHR ''|'') item))
       < length (what_labels w localized) * length (map_list_of mapv)"
    by (simp add: length_what_labels)
  from what_lines_short [OF assms(2) this, of "[]"] assms(1) show ?thesis
    by (simp add: raster_what_def Let_def)
qed

theorem raster_what_short_line_witness:
  "read_command demo_world
     (what_invocation demo_world (MapList [''elevation'', ''slope'', ''aspect''])
        (CoordList [(640000, 228000)]) PNone) \<noteq> []
   \<and> demo_what_text \<in> set (splitlines (read_command demo_world
     (what_invocation demo_world (MapList [''elevation'', ''slope'', ''aspect''])
        (CoordList [(640000, 228000)]) PNone)))
   \<and> length (drop 3 (split_sep (CHR ''|'') demo_what_text)) = 6
   \<and> fst (raster_what demo_world (MapList [''elevation'', ''slope'', ''aspect''])
        (CoordList [(640000, 228000)]) PNone False) = Raise IndexError"
proof -
  let ?cmd = "what_invocation demo_world (MapList [''elevation'', ''slope'', ''aspect''])
        (CoordList [(640000, 228000)]) PNone"
  have r: "read_command demo_world ?cmd = demo_what_text"
    by (simp add: demo_simps)
  have h1: "read_command demo_world ?cmd \<noteq> []"
    unfolding r by (simp add: demo_what_text_def)
  have h2: "demo_what_text \<in> set (splitlines (read_command demo_world ?cmd))"
    unfolding r by (simp add: demo_what_text_def splitlines_def)
  have n: "length (drop 3 (split_sep (CHR ''|'') demo_what_text)) = 6"
    by (simp add: demo_what_text_def split_sep_def)
  have h3: "length (drop 3 (split_sep (CHR ''|'') demo_what_text))
              < 3 * length (map_list_of (MapList [''elevation'', ''slope'', ''aspect'']))"
    unfolding n by (simp add: map_list_of_def)
  from raster_what_short_line [OF h1 h2 h3, of False] h1 h2 n show ?thesis by simp
qed

text \<open>
  C1, as amended: with two requested rasters and a captured output of one line that has
  six value fields after the 3-field prefix, \<open>raster_what\<close> returns a sequence of two
  entries, one for each requested raster in request order; each entry is a mapping with
  the one key of its raster, holding that raster's value, label and colour. (The claim
  has a single entry with both raster keys.) With \<open>localized\<close> the inner keys are the
  translated words.
\<close>

theorem raster_what_two_rasters:
  assumes "read_command w (what_invocation w (MapList [a, b]) coord env) = ret"
    and "splitlines ret = [item]"
    and "split_sep (CHR ''|'') item = [p1, p2, p3, v1, l1, c1, v2, l2, c2]"
  shows "raster_what w (MapList [a, b]) coord env False
           = (Return [[a \<mapsto> [''value'' \<mapsto> v1, ''label'' \<mapsto> l1, ''color'' \<mapsto> c1]],
                      [b \<mapsto> [''value'' \<mapsto> v2, ''label'' \<mapsto> l2, ''color'' \<mapsto> c2]]],
              [Read (what_invocation w (MapList [a, b]) coord env)])
       \<and> raster_what w (MapList [a, b]) coord env True
           = (Return [[a \<mapsto> [gettext w ''value'' \<mapsto> v1, gettext w ''label'' \<mapsto> l1,
                             gettext w ''color'' \<mapsto> c1]],
                      [b \<mapsto> [gettext w ''value'' \<mapsto> v2, gettext w ''label'' \<mapsto> l2,
                             gettext w ''color'' \<mapsto> c2]]],
              [Read (what_invocation w (MapList [a, b]) coord env)])"
  using raster_what_single_line [OF assms, of False]
        raster_what_single_line [OF assms, of True]
  by (simp add: what_labels_def)

theorem raster_what_two_rasters_witness:
  "splitlines demo_what_text = [demo_what_text]
   \<and> length (split_sep (CHR ''|'') demo_what_text) = 9
   \<and> raster_what demo_world (MapList [''elevation'', ''slope''])
        (CoordList [(640000, 228000)]) PNone False
      = (Return
           [[''elevation'' \<mapsto>
               [''value'' \<mapsto> ''102.479'', ''label'' \<mapsto> [], ''color'' \<mapsto> ''255:214:000'']],
            [''slope'' \<mapsto>
               [''value'' \<mapsto> ''3.14'', ''label'' \<mapsto> ''gentle'', ''color'' \<mapsto> ''255:255:000'']]],
         [Read (what_invocation demo_world (MapList [''elevation'', ''slope''])
                  (CoordList [(640000, 228000)]) PNone)])"
  using raster_what_two_rasters [OF demo_what_read demo_what_lines demo_what_fields]
  by (simp add: demo_what_lines demo_what_fields)

text \<open>
  The claim of C1 fails on the sample session: two rasters, one point and one output line
  of six value fields give a sequence that is not a single entry.
\<close>

theorem raster_what_single_entry_counterexample:
  "splitlines (read_command demo_world
      (what_invocation demo_world (MapList [''elevation'', ''slope''])
         (CoordList [(640000, 228000)]) PNone)) = [demo_what_text]
   \<and> length (drop 3 (split_sep (CHR ''|'') demo_what_text)) = 6
   \<and> \<not> (\<exists>d. fst (raster_what demo_world (MapList [''elevation'', ''slope''])
                   (CoordList [(640000, 228000)]) PNone False) = Return [d])"
  using raster_what_single_line
          [OF demo_what_read demo_what_lines demo_what_fields, of False]
  by (simp add: demo_what_read demo_what_lines demo_what_fields what_labels_def)

section \<open>Properties of the metadata reporter\<close>

text \<open>
  C2, as amended: when the parsed reporter output has all eight coerced fields, with
  \<open>min\<close> and \<open>max\<close> either \<open>NULL\<close> or text that \<open>float\<close> accepts, the four bounds text that
  \<open>float\<close> accepts and the two resolutions text that the DMS-aware parser accepts, then
  \<open>raster_info\<close> returns a mapping in which \<open>min\<close> is the absence marker if it was \<open>NULL\<close>,
  \<open>max\<close> is the float that \<open>float\<close> makes of \<open>10.5\<close> if it was \<open>10.5\<close>, and \<open>nsres\<close> is the
  float that the DMS-aware parser makes of \<open>0:00:30\<close> if it was \<open>0:00:30\<close>. (The claim asks
  for \<open>min\<close> and \<open>max\<close>, or \<open>nsres\<close>, only.)
\<close>

theorem raster_info_null_and_float:
  fixes w :: "'f world" and m :: string
  defines "kv \<equiv> parse_key_val w (read_command w (info_invocation m))"
  assumes "\<forall>k\<in>set [''min'', ''max''].
             \<exists>s. kv k = Some s \<and> (s = ''NULL'' \<or> pyfloat w s \<noteq> None)"
    and "\<forall>k\<in>set [''north'', ''south'', ''east'', ''west''].
             \<exists>s. kv k = Some s \<and> pyfloat w s \<noteq> None"
    and "\<forall>k\<in>set [''nsres'', ''ewres'']. \<exists>s. kv k = Some s \<and> float_or_dms w s \<noteq> None"
  shows "\<exists>r. raster_info w m = (Return r, [Read (info_invocation m)])
           \<and> (kv ''min'' = Some ''NULL'' \<longrightarrow> r ''min'' = Some NoneV)
           \<and> (kv ''max'' = Some ''10.5''
                \<longrightarrow> pyfloat w ''10.5'' \<noteq> None
                  \<and> r ''max'' = map_option Float (pyfloat w ''10.5''))
           \<and> (kv ''nsres'' = Some ''0:00:30''
                \<longrightarrow> float_or_dms w ''0:00:30'' \<noteq> None
                  \<and> r ''nsres'' = map_option Float (float_or_dms w ''0:00:30''))"
proof -
  have a1: "\<exists>s v. kv k = Some s \<and> float_or_null w s = Inr v" if "k \<in> set [''min'', ''max'']" for k
  proof -
    from assms(2) that obtain s where
      "kv k = Some s" "s = ''NULL'' \<or> pyfloat w s \<noteq> None" by blast
    then show ?thesis by (cases "s = ''NULL''") (auto simp: float_or_null_cases)
  qed
  have a2: "\<exists>s v. kv k = Some s \<and> to_float w s = Inr v"
    if "k \<in> set [''north'', ''south'', ''east'', ''west'']" for k
    using assms(3) that by (simp only: to_float_cases) fastforce
  have a3: "\<exists>s v. kv k = Some s \<and> to_float_or_dms w s = Inr v"
    if "k \<in> set [''nsres'', ''ewres'']" for k
    using assms(4) that by (simp only: to_float_or_dms_cases) fastforce
  from raster_info_returns [of w m, folded kv_def, OF a1 a2 a3] obtain r where
    r: "raster_info w m = (Return r, [Read (info_invocation m)])"
    and v1: "\<forall>k\<in>set [''min'', ''max''].
               \<exists>s v. kv k = Some s \<and> float_or_null w s = Inr v \<and> r k = Some v"
    and v3: "\<forall>k\<in>set [''nsres'', ''ewres''].
               \<exists>s v. kv k = Some s \<and> to_float_or_dms w s = Inr v \<and> r k = Some v"
    by blast
  from v1 obtain s1 u1 where
    m1: "kv ''min'' = Some s1" "float_or_null w s1 = Inr u1" "r ''min'' = Some u1" by auto
  from v1 obtain s2 u2 where
    m2: "kv ''max'' = Some s2" "float_or_null w s2 = Inr u2" "r ''max'' = Some u2" by auto
  from v3 obtain s3 u3 where
    m3: "kv ''nsres'' = Some s3" "to_float_or_dms w s3 = Inr u3" "r ''nsres'' = Some u3" by auto
  have "kv ''min'' = Some ''NULL'' \<longrightarrow> r ''min'' = Some NoneV"
    using m1 by (auto simp: float_or_null_cases)
  moreover have "kv ''max'' = Some ''10.5''
       \<longrightarrow> pyfloat w ''10.5'' \<noteq> None \<and> r ''max'' = map_option Float (pyfloat w ''10.5'')"
    using m2 by (auto simp: float_or_null_cases)
  moreover have "kv ''nsres'' = Some ''0:00:30''
       \<longrightarrow> float_or_dms w ''0:00:30'' \<noteq> None
         \<and> r ''nsres'' = map_option Float (float_or_dms w ''0:00:30'')"
    using m3 by (auto simp: to_float_or_dms_cases)
  ultimately show ?thesis using r by blast
qed

theorem raster_info_null_and_float_witness:
  "\<exists>r. raster_info demo_world ''elevation'' = (Return r, [Read (info_invocation ''elevation'')])
       \<and> r ''min'' = Some NoneV \<and> r ''max'' = Some (Float (21 / 2))
       \<and> r ''nsres'' = Some (Float (1 / 120))"
proof -
  let ?kv = "parse_key_val demo_world (read_command demo_world (info_invocation ''elevation''))"
  have h1: "\<forall>k\<in>set [''min'', ''max''].
              \<exists>s. ?kv k = Some s \<and> (s = ''NULL'' \<or> pyfloat demo_world s \<noteq> None)"
    by (simp add: demo_info_kv demo_parsers demo_float_values del: not_None_eq)
  have h2: "\<forall>k\<in>set [''north'', ''south'', ''east'', ''west''].
              \<exists>s. ?kv k = Some s \<and> pyfloat demo_world s \<noteq> None"
    by (simp add: demo_info_kv demo_parsers demo_float_values del: not_None_eq)
  have h3: "\<forall>k\<in>set [''nsres'', ''ewres''].
              \<exists>s. ?kv k = Some s \<and> float_or_dms demo_world s \<noteq> None"
    by (simp add: demo_info_kv demo_parsers demo_float_values del: not_None_eq)
  from raster_info_null_and_float [OF h1 h2 h3] show ?thesis
    by (simp add: demo_info_kv demo_parsers demo_float_values del: not_None_eq)
qed

text \<open>
  The claim of C2 fails on a reporter output that has \<open>min=NULL\<close> and \<open>max=10.5\<close> and no
  other field: reading \<open>north\<close> raises \<open>KeyError\<close>, and no mapping is returned.
\<close>

theorem raster_info_missing_field_counterexample:
  "parse_key_val demo_world (read_command demo_world (info_invocation ''slope'')) ''min''
     = Some ''NULL''
   \<and> parse_key_val demo_world (read_command demo_world (info_invocation ''slope'')) ''max''
     = Some ''10.5''
   \<and> raster_info demo_world ''slope''
     = (Raise (KeyError ''north''), [Read (info_invocation ''slope'')])"
  by (simp add: raster_info_def Let_def parsed_def demo_short_kv demo_parsers
      float_or_null_def demo_float_def)

text \<open>
  C8: when \<open>raster_info\<close> returns a mapping, its key set is the key set of the parsed
  reporter output, and every field other than the eight coerced ones is the text it was.
\<close>

theorem raster_info_key_set:
  fixes w :: "'f world" and m :: string
  defines "kv \<equiv> parse_key_val w (read_command w (info_invocation m))"
  assumes "raster_info w m = (Return r, t)"
  shows "dom r = dom kv
       \<and> (\<forall>k. k \<notin> set [''min'', ''max'', ''north'', ''south'', ''east'', ''west'',
                         ''nsres'', ''ewres'']
              \<longrightarrow> r k = map_option Text (kv k))"
proof -
  have "dom r = dom kv" unfolding kv_def by (rule raster_info_frame(1) [OF assms(2)])
  moreover have "r k = map_option Text (kv k)"
    if "k \<notin> set [''min'', ''max'', ''north'', ''south'', ''east'', ''west'', ''nsres'', ''ewres'']"
    for k
    unfolding kv_def using that by (intro raster_info_frame(2) [OF assms(2)]) simp_all
  ultimately show ?thesis by blast
qed

theorem raster_info_key_set_witness:
  "\<exists>r t. raster_info demo_world ''elevation'' = (Return r, t)
     \<and> dom r = {''datatype'', ''max'', ''min'', ''ewres'', ''nsres'', ''west'', ''east'',
                ''south'', ''north''}
     \<and> r ''datatype'' = Some (Text ''FCELL'')"
proof -
  let ?kv = "parse_key_val demo_world (read_command demo_world (info_invocation ''elevation''))"
  from demo_info_returns obtain r where
    r: "raster_info demo_world ''elevation''
          = (Return r, [Read (info_invocation ''elevation'')])" by blast
  from raster_info_key_set [OF r] have
    A: "dom r = dom ?kv"
    and B: "\<forall>k. k \<notin> set [''min'', ''max'', ''north'', ''south'', ''east'', ''west'',
                         ''nsres'', ''ewres'']
              \<longrightarrow> r k = map_option Text (?kv k)"
    by blast+
  from A have "dom r = {''datatype'', ''max'', ''min'', ''ewres'', ''nsres'', ''west'', ''east'',
                ''south'', ''north''}"
    by (simp add: demo_info_kv)
  moreover from B have "r ''datatype'' = map_option Text (?kv ''datatype'')" by simp
  then have "r ''datatype'' = Some (Text ''FCELL'')" by (simp add: demo_info_kv)
  ultimately show ?thesis using r by blast
qed

section \<open>Properties of the history annotator\<close>

text \<open>
  C3, as amended: when the raster's resolved mapset is the current mapset and the variable
  \<open>CMDLINE\<close> is set, \<open>raster_history\<close> returns \<open>True\<close> and runs \<open>r.support\<close> once, with the
  raster name and the recorded command line; when the resolved mapset is not the current
  one it raises nothing, runs no tool, emits one warning, which names the raster twice and
  says that it is not in the current mapset, and returns \<open>False\<close>. (The claim also has the
  warning tell where the raster is, and has no condition on \<open>CMDLINE\<close>.)
\<close>

theorem raster_history_outcome:
  "(find_file_mapset w m = Some (gisenv_MAPSET w) \<and> environ w ''CMDLINE'' = Some c
      \<longrightarrow> raster_history w m
            = (Return True,
               [Run (''r.support'', [(''map'', PStr m), (''history'', PStr c)])]))
   \<and> (find_file_mapset w m \<noteq> Some (gisenv_MAPSET w)
      \<longrightarrow> raster_history w m
            = (Return False,
               [Warning (gettext w (''Unable to write history for <'' @ m @ ''>. Raster map <''
                                    @ m @ ''> not found in current mapset.''))]))"
  by (simp add: raster_history_def warning_def)

theorem raster_history_outcome_witness:
  "raster_history demo_world ''slope''
     = (Return True,
        [Run (''r.support'',
              [(''map'', PStr ''slope''),
               (''history'', PStr ''r.slope.aspect elevation=elevation slope=slope'')])])
   \<and> raster_history demo_world ''elevation''
     = (Return False,
        [Warning ''Unable to write history for <elevation>. Raster map <elevation> not found in current mapset.''])"
  using raster_history_outcome
          [of demo_world "''slope''" "''r.slope.aspect elevation=elevation slope=slope''"]
        raster_history_outcome [of demo_world "''elevation''"]
  by (simp add: demo_world_def)

text \<open>
  The claim of C3 fails on the sample session: the warning for \<open>elevation\<close>, which lives in
  \<open>PERMANENT\<close>, does not mention \<open>PERMANENT\<close>; and without \<open>CMDLINE\<close> the call for a raster
  of the current mapset raises \<open>KeyError\<close>.
\<close>

theorem raster_history_counterexample:
  "find_file_mapset demo_world ''elevation'' = Some ''PERMANENT''
   \<and> raster_history demo_world ''elevation''
     = (Return False,
        [Warning ''Unable to write history for <elevation>. Raster map <elevation> not found in current mapset.''])
   \<and> \<not> sublist ''PERMANENT''
       ''Unable to write history for <elevation>. Raster map <elevation> not found in current mapset.''
   \<and> find_file_mapset demo_world_no_cmdline ''slope''
     = Some (gisenv_MAPSET demo_world_no_cmdline)
   \<and> raster_history demo_world_no_cmdline ''slope'' = (Raise (KeyError ''CMDLINE''), [])"
  using warning_without_location
  by (simp add: raster_history_def warning_def demo_world_def demo_world_no_cmdline_def)

section \<open>Properties of the expression evaluator\<close>

text \<open>
  C4: when the template has a named placeholder (plain or in braces) with no binding among
  the keyword arguments, \<open>mapcalc\<close> and \<open>mapcalc_start\<close> raise a template-substitution
  error (\<open>KeyError\<close> for a missing binding, or \<open>ValueError\<close> when an ill-formed placeholder
  comes first) and no tool has been started.
\<close>

theorem mapcalc_missing_binding:
  assumes "Named n \<in> set (tokens expr) \<or> Braced n \<in> set (tokens expr)"
    and "kwargs n = None"
  shows "\<exists>err. (err = ValueError \<or> (\<exists>k. err = KeyError k \<and> kwargs k = None))
           \<and> mapcalc w expr quiet verbose overwrite seed env kwargs = (Raise err, [])
           \<and> mapcalc_start w expr quiet verbose overwrite seed env kwargs = (Raise err, [])"
proof -
  from assms substitute_tokens_missing [of n "tokens expr" kwargs] obtain e where
    e: "substitute expr kwargs = Inl e" by (auto simp: substitute_def)
  then have "e = ValueError \<or> (\<exists>k. e = KeyError k \<and> kwargs k = None)"
    unfolding substitute_def by (rule substitute_tokens_error)
  moreover from e have
    "mapcalc w expr quiet verbose overwrite seed env kwargs = (Raise e, [])"
    "mapcalc_start w expr quiet verbose overwrite seed env kwargs = (Raise e, [])"
    by (simp_all add: mapcalc_def mapcalc_start_def)
  ultimately show ?thesis by blast
qed

theorem mapcalc_missing_binding_witness:
  "Braced ''inp'' \<in> set (tokens ''$out = ${inp} * 2'')
   \<and> mapcalc demo_world ''$out = ${inp} * 2'' False False True PNone PNone
        [''out'' \<mapsto> ''newele'']
      = (Raise (KeyError ''inp''), [])
   \<and> mapcalc_start demo_world ''$out = ${inp} * 2'' False False True PNone PNone
        [''out'' \<mapsto> ''newele'']
      = (Raise (KeyError ''inp''), [])"
proof -
  have h: "Named ''inp'' \<in> set (tokens ''$out = ${inp} * 2'')
             \<or> Braced ''inp'' \<in> set (tokens ''$out = ${inp} * 2'')"
    by (simp add: demo_tokens)
  have k: "[''out'' \<mapsto> ''newele''] ''inp'' = None" by simp
  have s: "substitute ''$out = ${inp} * 2'' [''out'' \<mapsto> ''newele''] = Inl (KeyError ''inp'')"
    by (simp add: substitute_def demo_tokens)
  from mapcalc_missing_binding
         [of "''inp''" "''$out = ${inp} * 2''" "[''out'' \<mapsto> ''newele'']"
             demo_world False False True PNone PNone, OF h k] s
  show ?thesis
    by (simp add: demo_tokens mapcalc_def mapcalc_start_def)
qed

text \<open>
  C5: when the template substitutes, the seed handed to \<open>r.mapcalc\<close> by \<open>mapcalc\<close> and by
  \<open>mapcalc_start\<close> is, for \<open>seed = 'auto'\<close>, the hash of the process id and the time
  modulo \<open>2^32\<close>, an integer from 0 up to but not including \<open>2^32\<close>; for any other seed
  (also \<open>None\<close>) it is the seed given.
\<close>

theorem mapcalc_seed:
  assumes "substitute expr kwargs = Inr e"
  shows "\<exists>s. (seed = PStr ''auto''
                \<longrightarrow> (\<exists>n. s = PInt n \<and> n = hash w (getpid w, time w) mod 2 ^ 32
                         \<and> 0 \<le> n \<and> n < 2 ^ 32))
           \<and> (seed \<noteq> PStr ''auto'' \<longrightarrow> s = seed)
           \<and> (\<exists>cmd rest. snd (mapcalc w expr quiet verbose overwrite seed env kwargs)
                            = Write cmd # rest
                 \<and> fst cmd = ''r.mapcalc'' \<and> kwarg cmd ''seed'' = Some s)
           \<and> (\<exists>cmd. snd (mapcalc_start w expr quiet verbose overwrite seed env kwargs)
                       = [Feed cmd, StdinWrite e, StdinClose]
                 \<and> fst cmd = ''r.mapcalc'' \<and> kwarg cmd ''seed'' = Some s)"
proof -
  let ?s = "if seed = PStr ''auto''
            then PInt (hash w (getpid w, time w) mod 2 ^ 32) else seed"
  have "seed = PStr ''auto''
          \<longrightarrow> (\<exists>n. ?s = PInt n \<and> n = hash w (getpid w, time w) mod 2 ^ 32
                   \<and> 0 \<le> n \<and> n < 2 ^ 32)"
    by simp
  moreover have "seed \<noteq> PStr ''auto'' \<longrightarrow> ?s = seed" by simp
  moreover have "\<exists>cmd rest. snd (mapcalc w expr quiet verbose overwrite seed env kwargs)
                            = Write cmd # rest
                 \<and> fst cmd = ''r.mapcalc'' \<and> kwarg cmd ''seed'' = Some ?s"
    unfolding mapcalc_trace [OF assms] by (intro exI conjI) (rule refl, simp_all add: kwarg_def)
  moreover have "\<exists>cmd. snd (mapcalc_start w expr quiet verbose overwrite seed env kwargs)
                       = [Feed cmd, StdinWrite e, StdinClose]
                 \<and> fst cmd = ''r.mapcalc'' \<and> kwarg cmd ''seed'' = Some ?s"
    unfolding mapcalc_start_result [OF assms]
    by (intro exI conjI) (simp (no_asm), simp_all add: kwarg_def)
  ultimately show ?thesis by blast
qed

theorem mapcalc_seed_witness:
  "snd (mapcalc demo_world ''$out = ${inp} * 2'' False False True (PStr ''auto'') PNone
          [''out'' \<mapsto> ''newele'', ''inp'' \<mapsto> ''elevation''])
     = [Write (''r.mapcalc'',
               [(''file'', PStr ''-''), (''stdin'', PStr ''newele = elevation * 2''),
                (''env'', PNone), (''seed'', PInt 2647921866), (''quiet'', PBool False),
                (''verbose'', PBool False), (''overwrite'', PBool True)])]
   \<and> (\<exists>s. (\<exists>cmd rest.
              snd (mapcalc demo_world ''$out = ${inp} * 2'' False False True (PInt 42) PNone
                     [''out'' \<mapsto> ''newele'', ''inp'' \<mapsto> ''elevation''])
                = Write cmd # rest
              \<and> fst cmd = ''r.mapcalc'' \<and> kwarg cmd ''seed'' = Some s)
          \<and> s = PInt 42)"
proof -
  note t = mapcalc_seed [OF demo_substitute, of "PStr ''auto''" demo_world False False True PNone]
  note u = mapcalc_seed [OF demo_substitute, of "PInt 42" demo_world False False True PNone]
  have a: "snd (mapcalc demo_world ''$out = ${inp} * 2'' False False True (PStr ''auto'') PNone
          [''out'' \<mapsto> ''newele'', ''inp'' \<mapsto> ''elevation''])
     = [Write (''r.mapcalc'',
               [(''file'', PStr ''-''), (''stdin'', PStr ''newele = elevation * 2''),
                (''env'', PNone), (''seed'', PInt 2647921866), (''quiet'', PBool False),
                (''verbose'', PBool False), (''overwrite'', PBool True)])]"
    using t
    by (simp add: mapcalc_trace [OF demo_substitute] demo_auto_seed)
       (simp add: demo_world_def kwarg_def)
  from u have "\<exists>s. (\<exists>cmd rest.
              snd (mapcalc demo_world ''$out = ${inp} * 2'' False False True (PInt 42) PNone
                     [''out'' \<mapsto> ''newele'', ''inp'' \<mapsto> ''elevation''])
                = Write cmd # rest
              \<and> fst cmd = ''r.mapcalc'' \<and> kwarg cmd ''seed'' = Some s)
          \<and> s = PInt 42"
    by simp
  with a show ?thesis by blast
qed

text \<open>
  C6: when \<open>mapcalc\<close> has run the evaluator tool and the tool fails, the call ends on the
  fatal-error channel, after the one invocation of \<open>r.mapcalc\<close>, with a message that names
  \<open>r.mapcalc\<close>; it neither returns nor raises \<open>CalledModuleError\<close>.
\<close>

theorem mapcalc_tool_failure:
  assumes "Write cmd \<in> set (snd (mapcalc w expr quiet verbose overwrite seed env kwargs))"
    and "module_fails w cmd"
  shows "mapcalc w expr quiet verbose overwrite seed env kwargs
           = (Abort,
              [Write cmd, Fatal (gettext w ''An error occurred while running r.mapcalc'')])
       \<and> fst cmd = ''r.mapcalc''
       \<and> suffix ''r.mapcalc'' ''An error occurred while running r.mapcalc''"
proof -
  have "suffix ''r.mapcalc'' ''An error occurred while running r.mapcalc''"
    by (rule suffixI [of _ "''An error occurred while running ''"]) simp
  moreover obtain e where e: "substitute expr kwargs = Inr e"
    using assms(1) by (cases "substitute expr kwargs") (simp_all add: mapcalc_def)
  moreover from assms e have
    "mapcalc w expr quiet verbose overwrite seed env kwargs
       = (Abort, [Write cmd, Fatal (gettext w ''An error occurred while running r.mapcalc'')])"
    "fst cmd = ''r.mapcalc''"
    by (auto simp: mapcalc_def fatal_def Let_def split: if_splits)
  ultimately show ?thesis by blast
qed

theorem mapcalc_tool_failure_witness:
  "mapcalc demo_world ''newele = nosuchmap * 2'' False False True PNone PNone Map.empty
     = (Abort,
        [Write (''r.mapcalc'',
                [(''file'', PStr ''-''), (''stdin'', PStr ''newele = nosuchmap * 2''),
                 (''env'', PNone), (''seed'', PNone), (''quiet'', PBool False),
                 (''verbose'', PBool False), (''overwrite'', PBool True)]),
         Fatal ''An error occurred while running r.mapcalc''])"
proof -
  let ?cmd = "(''r.mapcalc'',
                [(''file'', PStr ''-''), (''stdin'', PStr ''newele = nosuchmap * 2''),
                 (''env'', PNone), (''seed'', PNone), (''quiet'', PBool False),
                 (''verbose'', PBool False), (''overwrite'', PBool True)])"
  have f: "module_fails demo_world ?cmd" by (simp add: demo_world_def kwarg_def)
  have w: "Write ?cmd \<in> set (snd (mapcalc demo_world ''newele = nosuchmap * 2'' False False
                                    True PNone PNone Map.empty))"
    using f by (simp add: mapcalc_trace [OF demo_substitute_plain])
  from mapcalc_tool_failure [OF w f] show ?thesis by (simp add: demo_world_def)
qed

text \<open>
  C7: \<open>mapcalc\<close> and \<open>mapcalc_start\<close> expand and seed alike. When the substitution fails both
  raise its error and start nothing. When it gives the text \<open>e\<close>, \<open>mapcalc\<close> hands \<open>e\<close> to
  \<open>r.mapcalc\<close> as its standard input and \<open>mapcalc_start\<close> starts \<open>r.mapcalc\<close> with the same
  arguments (the same resolved seed), writes \<open>e\<close> to its input, closes the input and
  returns the handle.
\<close>

theorem mapcalc_same_pipeline:
  "(\<forall>err. substitute expr kwargs = Inl err
       \<longrightarrow> mapcalc w expr quiet verbose overwrite seed env kwargs = (Raise err, [])
         \<and> mapcalc_start w expr quiet verbose overwrite seed env kwargs = (Raise err, []))
   \<and> (\<forall>e. substitute expr kwargs = Inr e
       \<longrightarrow> (\<exists>c p rest.
             snd (mapcalc w expr quiet verbose overwrite seed env kwargs) = Write c # rest
             \<and> mapcalc_start w expr quiet verbose overwrite seed env kwargs
                 = (Return (Popen p), [Feed p, StdinWrite e, StdinClose])
             \<and> fst c = ''r.mapcalc'' \<and> fst p = ''r.mapcalc''
             \<and> kwarg c ''stdin'' = Some (PStr e)
             \<and> kwarg c ''seed'' = kwarg p ''seed''
             \<and> kwarg c ''seed''
                 = Some (if seed = PStr ''auto''
                         then PInt (hash w (getpid w, time w) mod 2 ^ 32) else seed)
             \<and> snd c = (''file'', PStr ''-'') # (''stdin'', PStr e) # tl (snd p)))"
proof (intro conjI allI impI)
  fix err
  assume "substitute expr kwargs = Inl err"
  then show "mapcalc w expr quiet verbose overwrite seed env kwargs = (Raise err, [])"
    and "mapcalc_start w expr quiet verbose overwrite seed env kwargs = (Raise err, [])"
    by (rule mapcalc_raises)+
next
  fix e
  assume e: "substitute expr kwargs = Inr e"
  show "\<exists>c p rest.
             snd (mapcalc w expr quiet verbose overwrite seed env kwargs) = Write c # rest
             \<and> mapcalc_start w expr quiet verbose overwrite seed env kwargs
                 = (Return (Popen p), [Feed p, StdinWrite e, StdinClose])
             \<and> fst c = ''r.mapcalc'' \<and> fst p = ''r.mapcalc''
             \<and> kwarg c ''stdin'' = Some (PStr e)
             \<and> kwarg c ''seed'' = kwarg p ''seed''
             \<and> kwarg c ''seed''
                 = Some (if seed = PStr ''auto''
                         then PInt (hash w (getpid w, time w) mod 2 ^ 32) else seed)
             \<and> snd c = (''file'', PStr ''-'') # (''stdin'', PStr e) # tl (snd p)"
    unfolding mapcalc_trace [OF e] mapcalc_start_result [OF e]
    by (intro exI conjI) (rule refl, rule refl, simp_all add: kwarg_def)
qed

theorem mapcalc_same_pipeline_witness:
  "mapcalc demo_world ''$out = ${inp} * 2'' False False True (PStr ''auto'') PNone
          [''out'' \<mapsto> ''newele'', ''inp'' \<mapsto> ''elevation'']
     = (Return (),
        [Write (''r.mapcalc'',
               [(''file'', PStr ''-''), (''stdin'', PStr ''newele = elevation * 2''),
                (''env'', PNone), (''seed'', PInt 2647921866), (''quiet'', PBool False),
                (''verbose'', PBool False), (''overwrite'', PBool True)])])
   \<and> mapcalc_start demo_world ''$out = ${inp} * 2'' False False True (PStr ''auto'') PNone
          [''out'' \<mapsto> ''newele'', ''inp'' \<mapsto> ''elevation'']
     = (Return (Popen (''r.mapcalc'',
               [(''file'', PStr ''-''),
                (''env'', PNone), (''seed'', PInt 2647921866), (''quiet'', PBool False),
                (''verbose'', PBool False), (''overwrite'', PBool True)])),
        [Feed (''r.mapcalc'',
               [(''file'', PStr ''-''),
                (''env'', PNone), (''seed'', PInt 2647921866), (''quiet'', PBool False),
                (''verbose'', PBool False), (''overwrite'', PBool True)]),
         StdinWrite ''newele = elevation * 2'', StdinClose])"
  using mapcalc_same_pipeline
          [of "''$out = ${inp} * 2''" "[''out'' \<mapsto> ''newele'', ''inp'' \<mapsto> ''elevation'']"
              demo_world False False True "PStr ''auto''" PNone]
  by (simp add: demo_substitute mapcalc_def mapcalc_start_def demo_auto_seed fatal_def Let_def)
     (simp add: demo_world_def kwarg_def)

end
